theory Spec2Isabelle
  imports Main "HOL-Library.Sublist" "HOL-Library.Char_ord" "HOL-Library.List_Lexorder"
begin

section \<open>Data model of course.py\<close>

text \<open>
  A document is the dictionary that \<^verbatim>\<open>fetch_documents\<close> projects out of the store. The
  key \<^verbatim>\<open>_id\<close> is always there (it is read with \<^verbatim>\<open>doc["_id"]\<close>); every other key is read
  with \<^verbatim>\<open>doc.get\<close>, so it may be absent: an absent key is \<open>None\<close>. Two dictionaries are
  equal in Python when they have the same keys with equal values, which is equality of
  the record.
\<close>

record document =
  doc_id :: nat
  title :: "string option"
  abstract :: "string option"
  categories :: "string list option"
  update_date :: "string option"
  submitter :: "string option"
  comments :: "string option"
  journal_ref :: "string option"
  authors :: "string option"
  link :: "string option"

datatype py_error = IndexError | ValueError

text \<open>\<^verbatim>\<open>d.get(key, default)\<close>\<close>

definition get_default :: "'a option \<Rightarrow> 'a \<Rightarrow> 'a" where
  "get_default v dflt = (case v of None \<Rightarrow> dflt | Some x \<Rightarrow> x)"

text \<open>Truth value of \<^verbatim>\<open>doc.get(key)\<close> for a text field: present and not the empty string.\<close>

definition truthy :: "string option \<Rightarrow> bool" where
  "truthy v = (case v of None \<Rightarrow> False | Some s \<Rightarrow> s \<noteq> [])"

text \<open>\<^verbatim>\<open>sep.join(xs)\<close>\<close>

fun join :: "string \<Rightarrow> string list \<Rightarrow> string" where
  "join sep [] = []"
| "join sep [x] = x"
| "join sep (x # y # ys) = x @ sep @ join sep (y # ys)"

text \<open>\<^verbatim>\<open>s.startswith(p)\<close>\<close>

definition startswith :: "string \<Rightarrow> string \<Rightarrow> bool" where
  "startswith s p = (take (length p) s = p)"

text \<open>\<^verbatim>\<open>xs[i]\<close> for an index that is not negative: out of range raises.\<close>

definition py_index :: "'a list \<Rightarrow> nat \<Rightarrow> py_error + 'a" where
  "py_index xs i = (if i < length xs then Inr (xs ! i) else Inl IndexError)"

text \<open>A comprehension whose element expression may raise: the first error ends it.\<close>

fun collect :: "(py_error + 'a) list \<Rightarrow> py_error + 'a list" where
  "collect [] = Inr []"
| "collect (r # rs) =
     (case r of
        Inl e \<Rightarrow> Inl e
      | Inr x \<Rightarrow> (case collect rs of Inl e \<Rightarrow> Inl e | Inr xs \<Rightarrow> Inr (x # xs)))"

section \<open>Corpus builder (lines 28 to 39)\<close>

text \<open>\<^verbatim>\<open>sorted(set(...))\<close>: the distinct values in ascending order.\<close>

definition sorted_set :: "string list \<Rightarrow> string list" where
  "sorted_set xs = sort (remdups xs)"

definition submitters :: "document list \<Rightarrow> string list" where
  "submitters documents =
     sorted_set [get_default (submitter doc) ''Unknown''. doc \<leftarrow> documents, truthy (submitter doc)]"

definition all_categories :: "document list \<Rightarrow> string list" where
  "all_categories documents =
     sorted_set [cat. doc \<leftarrow> documents, cat \<leftarrow> get_default (categories doc) []]"

definition update_dates :: "document list \<Rightarrow> string list" where
  "update_dates documents =
     sorted_set [take 4 (get_default (update_date doc) ''Unknown''). doc \<leftarrow> documents, truthy (update_date doc)]"

text \<open>The text of one document, line 37.\<close>

definition searchable_text :: "document \<Rightarrow> string" where
  "searchable_text doc =
     get_default (title doc) [] @ '' '' @ get_default (abstract doc) [] @ '' '' @
     join '' '' (get_default (categories doc) [])"

text \<open>The loop of lines 36 to 39, appending to \<^verbatim>\<open>corpus\<close> and \<^verbatim>\<open>ids\<close>.\<close>

fun corpus_loop :: "document list \<Rightarrow> string list \<times> nat list \<Rightarrow> string list \<times> nat list" where
  "corpus_loop [] (corpus, ids) = (corpus, ids)"
| "corpus_loop (doc # docs) (corpus, ids) =
     corpus_loop docs (corpus @ [searchable_text doc], ids @ [doc_id doc])"

definition corpus :: "document list \<Rightarrow> string list" where
  "corpus documents = fst (corpus_loop documents ([], []))"

definition ids :: "document list \<Rightarrow> nat list" where
  "ids documents = snd (corpus_loop documents ([], []))"

section \<open>Vectorizer (lines 41 and 42)\<close>

text \<open>
  \<^verbatim>\<open>TfidfVectorizer\<close> belongs to scikit-learn, whose code is not part of the repository, and
  the script never reads \<^verbatim>\<open>vectorizer\<close> or \<^verbatim>\<open>tfidf_matrix\<close> again. What reaches the page
  is that \<^verbatim>\<open>fit_transform\<close> raises \<^verbatim>\<open>ValueError\<close> when the corpus yields no term at all (an
  empty vocabulary), as an empty corpus does. The terms that the vectorizer takes from one
  text (its lower-cased tokens of two or more word characters that are not English stop
  words) are the parameter \<open>analyzer\<close>; the value returned stands for the fitted
  vocabulary.
\<close>

definition fit_transform :: "(string \<Rightarrow> string list) \<Rightarrow> string list \<Rightarrow> py_error + string list" where
  "fit_transform analyzer corp =
     (let terms = concat (map analyzer corp)
      in if terms = [] then Inl ValueError else Inr (remdups terms))"

section \<open>Filter (lines 75 to 80)\<close>

definition passes :: "string \<Rightarrow> string \<Rightarrow> string \<Rightarrow> document \<Rightarrow> bool" where
  "passes selected_update_date selected_submitter selected_category doc =
     ((selected_update_date = ''All'' \<or>
         startswith (get_default (update_date doc) []) selected_update_date) \<and>
      (selected_submitter = ''All'' \<or> submitter doc = Some selected_submitter) \<and>
      (selected_category = ''All'' \<or>
         selected_category \<in> set (get_default (categories doc) [])))"

definition filtered_documents :: "string \<Rightarrow> string \<Rightarrow> string \<Rightarrow> document list \<Rightarrow> document list" where
  "filtered_documents selected_update_date selected_submitter selected_category documents =
     [doc \<leftarrow> documents. passes selected_update_date selected_submitter selected_category doc]"

text \<open>
  Line 86: \<^verbatim>\<open>[corpus[i] for i, doc in enumerate(documents) if doc in filtered_documents]\<close>.
  The membership test compares dictionaries by value.
\<close>

definition corpus_filtered :: "string list \<Rightarrow> document list \<Rightarrow> document list \<Rightarrow> py_error + string list" where
  "corpus_filtered corp documents filtered =
     collect [py_index corp i. (i, doc) \<leftarrow> enumerate 0 documents, doc \<in> set filtered]"

section \<open>Text ranker (lines 44 to 47)\<close>

text \<open>
  One entry of the list that \<^verbatim>\<open>process.extract\<close> returns: the choice, its score and its
  index in the list of choices (\<^verbatim>\<open>result[2]\<close>).
\<close>

type_synonym 's result = "string \<times> 's \<times> nat"

definition choice :: "'s result \<Rightarrow> string" where
  "choice r = fst r"

definition score :: "'s result \<Rightarrow> 's" where
  "score r = fst (snd r)"

definition idx :: "'s result \<Rightarrow> nat" where
  "idx r = snd (snd r)"

text \<open>
  Modelled from the spec: \<^verbatim>\<open>process.extract\<close> and \<^verbatim>\<open>fuzz.partial_ratio\<close> belong to the
  rapidfuzz library, whose code is not part of the repository. The scorer is a parameter
  \<open>scorer\<close>, any function from the query and a text into a linear order. The selection
  follows section 4.3 of the specification: every choice is scored, the results are put in
  descending order of score with equal scores left in the order of the choices, and the
  first \<open>limit\<close> of them are returned.
\<close>

fun insert_ranked :: "('s::linorder) result \<Rightarrow> 's result list \<Rightarrow> 's result list" where
  "insert_ranked r [] = [r]"
| "insert_ranked r (x # xs) =
     (if score r < score x then x # insert_ranked r xs else r # x # xs)"

definition scored :: "(string \<Rightarrow> string \<Rightarrow> 's) \<Rightarrow> string \<Rightarrow> string list \<Rightarrow> 's result list" where
  "scored scorer query choices = [(c, scorer query c, i). (i, c) \<leftarrow> enumerate 0 choices]"

definition process_extract :: "(string \<Rightarrow> string \<Rightarrow> 's::linorder) \<Rightarrow> string \<Rightarrow> string list \<Rightarrow> nat \<Rightarrow> 's result list" where
  "process_extract scorer query choices limit =
     take limit (foldr insert_ranked (scored scorer query choices) [])"

definition recommend_documents ::
  "(string \<Rightarrow> string \<Rightarrow> 's::linorder) \<Rightarrow> string \<Rightarrow> string list \<Rightarrow> document list \<Rightarrow> nat \<Rightarrow> py_error + document list" where
  "recommend_documents scorer query corp documents limit =
     (let results = process_extract scorer query corp limit
      in collect [py_index documents (idx result). result \<leftarrow> results])"

section \<open>Home page (lines 75 to 87) and the saved courses\<close>

text \<open>
  One run of the script on the Home page, up to line 87: the value is the list
  \<^verbatim>\<open>recommended_docs\<close> that the page goes on to show, or the first error raised on the way.
  The module level code runs first on every run, so the vectorizer of lines 41 and 42 is
  fitted before the filter. The block under \<^verbatim>\<open>if query:\<close> is the only place that ranks and
  shows documents; with an empty query it is skipped and the page shows no document.
\<close>

definition search ::
  "(string \<Rightarrow> string list) \<Rightarrow> (string \<Rightarrow> string \<Rightarrow> 's::linorder) \<Rightarrow> document list \<Rightarrow>
     string \<Rightarrow> string \<Rightarrow> string \<Rightarrow> string \<Rightarrow> nat \<Rightarrow> py_error + document list" where
  "search analyzer scorer documents selected_update_date selected_submitter selected_category query limit =
     (case fit_transform analyzer (corpus documents) of
        Inl e \<Rightarrow> Inl e
      | Inr tfidf_matrix \<Rightarrow>
          (let filtered = filtered_documents selected_update_date selected_submitter selected_category documents
           in if query \<noteq> [] then
                (case corpus_filtered (corpus documents) documents filtered of
                   Inl e \<Rightarrow> Inl e
                 | Inr texts \<Rightarrow> recommend_documents scorer query texts filtered limit)
              else Inr []))"

text \<open>The page calls the ranker with the limit 50 (line 87).\<close>

definition home_results ::
  "(string \<Rightarrow> string list) \<Rightarrow> (string \<Rightarrow> string \<Rightarrow> 's::linorder) \<Rightarrow> document list \<Rightarrow>
     string \<Rightarrow> string \<Rightarrow> string \<Rightarrow> string \<Rightarrow> py_error + document list" where
  "home_results analyzer scorer documents selected_update_date selected_submitter selected_category query =
     search analyzer scorer documents selected_update_date selected_submitter selected_category query 50"

datatype page = Home | SelectedCourses

record session_state =
  page :: page
  selected_courses :: "document list"

text \<open>Lines 50 to 54, for a session that has neither key yet.\<close>

definition init_session :: session_state where
  "init_session = \<lparr>page = Home, selected_courses = []\<rparr>"

text \<open>Line 98, the save button of one listed document.\<close>

definition save_course :: "session_state \<Rightarrow> document \<Rightarrow> session_state" where
  "save_course st rec = st\<lparr>selected_courses := selected_courses st @ [rec]\<rparr>"

definition go_to_selected_courses :: "session_state \<Rightarrow> session_state" where
  "go_to_selected_courses st = st\<lparr>page := SelectedCourses\<rparr>"

definition go_home :: "session_state \<Rightarrow> session_state" where
  "go_home st = st\<lparr>page := Home\<rparr>"

section \<open>The ranking order of the specification\<close>

text \<open>
  Section 4.3 of the specification orders results by descending score and breaks ties by
  the original order of the candidates: \<open>a\<close> is ranked before \<open>b\<close>.
\<close>

definition ranks_before :: "('s::linorder) result \<Rightarrow> 's result \<Rightarrow> bool" where
  "ranks_before a b = (score b < score a \<or> (score a = score b \<and> idx a < idx b))"

section \<open>Example data\<close>

text \<open>The two documents of the example in section 8 of the specification.\<close>

definition example_doc1 :: document where
  "example_doc1 = \<lparr>doc_id = 1, title = Some ''Quantum Computing Basics'',
     abstract = Some ''intro to qubits'', categories = Some [''quant-ph''],
     update_date = Some ''2020xxxx'', submitter = Some ''alice'', comments = None,
     journal_ref = None, authors = None, link = None\<rparr>"

definition example_doc2 :: document where
  "example_doc2 = \<lparr>doc_id = 2, title = Some ''Classical Mechanics'',
     abstract = Some ''Newtonian dynamics'', categories = Some [''physics''],
     update_date = Some ''2019xxxx'', submitter = Some ''bob'', comments = None,
     journal_ref = None, authors = None, link = None\<rparr>"

text \<open>A document with several categories.\<close>

definition example_doc3 :: document where
  "example_doc3 = \<lparr>doc_id = 4, title = Some ''Learning to Rank'',
     abstract = Some ''pairwise losses'', categories = Some [''cs.IR'', ''cs.LG'', ''stat.ML''],
     update_date = Some ''2021xxxx'', submitter = Some ''carol'', comments = None,
     journal_ref = None, authors = None, link = None\<rparr>"

text \<open>A document that has nothing but its identifier.\<close>

definition bare_doc :: document where
  "bare_doc = \<lparr>doc_id = 3, title = None, abstract = None, categories = None,
     update_date = None, submitter = None, comments = None, journal_ref = None,
     authors = None, link = None\<rparr>"

text \<open>A scorer for the examples: the length of the longest common prefix.\<close>

fun common_prefix_length :: "string \<Rightarrow> string \<Rightarrow> nat" where
  "common_prefix_length (a # as) (b # bs) = (if a = b then Suc (common_prefix_length as bs) else 0)"
| "common_prefix_length _ _ = 0"

section \<open>Lemmas about the corpus and the filter\<close>

lemma corpus_loop_eq:
  "corpus_loop docs (c, i) = (c @ map searchable_text docs, i @ map doc_id docs)"
  by (induction docs arbitrary: c i) simp_all

lemma corpus_eq_map: "corpus documents = map searchable_text documents"
  by (simp add: corpus_def corpus_loop_eq)

lemma startswith_prefix: "startswith s p = prefix p s"
  by (metis startswith_def prefix_def append_eq_conv_conj append_take_drop_id)

lemma collect_indexed:
  "(\<And>i d. (i, d) \<in> set ps \<Longrightarrow> i < length corp \<and> corp ! i = f d) \<Longrightarrow>
   collect [py_index corp i. (i, doc) \<leftarrow> ps, Q doc] = Inr (map f (filter Q (map snd ps)))"
proof (induction ps)
  case Nil
  then show ?case by simp
next
  case (Cons p ps)
  obtain i d where p: "p = (i, d)" by (cases p)
  have here: "i < length corp \<and> corp ! i = f d"
    using Cons.prems [of i d] by (simp add: p)
  have rest: "collect [py_index corp i. (i, doc) \<leftarrow> ps, Q doc] = Inr (map f (filter Q (map snd ps)))"
  proof (rule Cons.IH)
    fix j e assume "(j, e) \<in> set ps"
    then show "j < length corp \<and> corp ! j = f e"
      using Cons.prems [of j e] by simp
  qed
  show ?case
    using here rest by (simp add: p py_index_def)
qed

lemma filter_by_membership: "filter (\<lambda>d. d \<in> set (filter P docs)) docs = filter P docs"
  by (rule filter_cong) simp_all

lemma corpus_filtered_eq:
  "corpus_filtered (corpus documents) documents (filtered_documents y s c documents) =
     Inr (map searchable_text (filtered_documents y s c documents))"
proof -
  let ?F = "filtered_documents y s c documents"
  have texts: "collect [py_index (corpus documents) i. (i, doc) \<leftarrow> enumerate 0 documents, doc \<in> set ?F]
        = Inr (map searchable_text (filter (\<lambda>d. d \<in> set ?F) (map snd (enumerate 0 documents))))"
    by (rule collect_indexed) (auto simp: corpus_eq_map in_set_enumerate_eq)
  have same: "filter (\<lambda>d. d \<in> set ?F) documents = ?F"
    unfolding filtered_documents_def by (rule filter_by_membership)
  show ?thesis
    by (simp only: corpus_filtered_def texts map_snd_enumerate same)
qed

section \<open>Lemmas about the ranking\<close>

lemma set_insert_ranked: "set (insert_ranked r xs) = insert r (set xs)"
  by (induction xs) auto

lemma length_insert_ranked: "length (insert_ranked r xs) = Suc (length xs)"
  by (induction xs) auto

lemma ranks_before_trans: "ranks_before a b \<Longrightarrow> ranks_before b c \<Longrightarrow> ranks_before a c"
  by (auto simp: ranks_before_def)

lemma sorted_insert_ranked:
  "sorted_wrt ranks_before xs \<Longrightarrow> (\<And>x. x \<in> set xs \<Longrightarrow> idx r < idx x) \<Longrightarrow>
   sorted_wrt ranks_before (insert_ranked r xs)"
proof (induction xs)
  case Nil
  then show ?case by simp
next
  case (Cons x xs)
  show ?case
  proof (cases "score r < score x")
    case True
    have "sorted_wrt ranks_before (insert_ranked r xs)"
      using Cons by simp
    moreover have "ranks_before x r"
      using True by (simp add: ranks_before_def)
    ultimately show ?thesis
      using True Cons.prems(1) by (auto simp: set_insert_ranked)
  next
    case False
    have rx: "ranks_before r x"
      using False Cons.prems(2) [of x] by (auto simp: ranks_before_def)
    have "ranks_before r y" if "y \<in> set xs" for y
    proof -
      have "ranks_before x y" using Cons.prems(1) that by simp
      then show ?thesis by (rule ranks_before_trans [OF rx])
    qed
    then show ?thesis
      using False rx Cons.prems(1) by auto
  qed
qed


lemma set_foldr_insert_ranked: "set (foldr insert_ranked xs []) = set xs"
  by (induction xs) (simp_all add: set_insert_ranked)

lemma length_foldr_insert_ranked: "length (foldr insert_ranked xs []) = length xs"
  by (induction xs) (simp_all add: length_insert_ranked)

lemma sorted_foldr_enumerate:
  "sorted_wrt ranks_before (foldr insert_ranked [(c, f c, i). (i, c) \<leftarrow> enumerate n cs] [])"
proof (induction cs arbitrary: n)
  case Nil
  then show ?case by simp
next
  case (Cons c cs)
  let ?rest = "foldr insert_ranked [(c, f c, i). (i, c) \<leftarrow> enumerate (Suc n) cs] []"
  have later: "idx (c, f c, n) < idx x" if "x \<in> set ?rest" for x
    using that by (auto simp: set_foldr_insert_ranked idx_def in_set_enumerate_eq)
  have "sorted_wrt ranks_before (insert_ranked (c, f c, n) ?rest)"
    using Cons.IH [of "Suc n"] later by (rule sorted_insert_ranked)
  then show ?case by simp
qed

lemma set_scored:
  "set (scored scorer query cs) = (\<lambda>k. (cs ! k, scorer query (cs ! k), k)) ` {..<length cs}"
  by (auto simp: scored_def in_set_enumerate_eq image_iff)

lemma length_scored: "length (scored scorer query cs) = length cs"
  by (simp add: scored_def)

lemma sorted_all_ranked:
  "sorted_wrt ranks_before (foldr insert_ranked (scored scorer query cs) [])"
  unfolding scored_def by (rule sorted_foldr_enumerate)

lemma length_process_extract:
  "length (process_extract scorer query cs limit) = min limit (length cs)"
  by (simp add: process_extract_def length_foldr_insert_ranked length_scored)

lemma set_process_extract:
  "r \<in> set (process_extract scorer query cs limit) \<Longrightarrow>
   idx r < length cs \<and> choice r = cs ! idx r \<and> score r = scorer query (cs ! idx r)"
proof -
  assume "r \<in> set (process_extract scorer query cs limit)"
  then have "r \<in> set (foldr insert_ranked (scored scorer query cs) [])"
    unfolding process_extract_def by (rule in_set_takeD)
  then show ?thesis
    by (auto simp: set_foldr_insert_ranked set_scored idx_def choice_def score_def)
qed

lemma sorted_process_extract:
  "sorted_wrt ranks_before (process_extract scorer query cs limit)"
  unfolding process_extract_def by (rule sorted_wrt_take) (rule sorted_all_ranked)

lemma collect_in_range:
  "(\<And>r. r \<in> set rs \<Longrightarrow> g r < length xs) \<Longrightarrow>
   collect [py_index xs (g r). r \<leftarrow> rs] = Inr (map (\<lambda>r. xs ! g r) rs)"
  by (induction rs) (simp_all add: py_index_def)

lemma recommend_documents_eq:
  fixes scorer :: "string \<Rightarrow> string \<Rightarrow> 's::linorder"
  assumes "length corp = length documents"
  shows "recommend_documents scorer query corp documents limit =
           Inr (map (\<lambda>r. documents ! idx r) (process_extract scorer query corp limit))"
proof -
  have "idx r < length documents" if "r \<in> set (process_extract scorer query corp limit)" for r
    using set_process_extract [OF that] assms by simp
  then show ?thesis
    by (simp add: recommend_documents_def Let_def collect_in_range)
qed

lemma ranked_nth:
  assumes "sorted_wrt ranks_before rs" "i < j" "j < length rs"
  shows "score (rs ! j) \<le> score (rs ! i) \<and> (score (rs ! i) = score (rs ! j) \<longrightarrow> idx (rs ! i) < idx (rs ! j))"
proof -
  have "ranks_before (rs ! i) (rs ! j)"
    using assms by (simp add: sorted_wrt_iff_nth_less)
  then show ?thesis by (auto simp: ranks_before_def)
qed


lemma join_concat: "join sep (x # xs) = x @ concat (map ((@) sep) xs)"
  by (induction xs arbitrary: x) simp_all

lemma append_single: "(@) [a] = (#) a"
  by (rule ext) simp

lemma update_dates_nonempty: "y \<in> set (update_dates documents) \<Longrightarrow> y \<noteq> []"
  by (auto simp: update_dates_def sorted_set_def truthy_def get_default_def split: option.splits)

lemma passes_iff:
  "passes y s c doc \<longleftrightarrow>
     (y = ''All'' \<or> prefix y (case update_date doc of None \<Rightarrow> [] | Some u \<Rightarrow> u)) \<and>
     (s = ''All'' \<or> submitter doc = Some s) \<and>
     (c = ''All'' \<or> (\<exists>cs. categories doc = Some cs \<and> c \<in> set cs))"
  by (cases "update_date doc"; cases "categories doc")
     (auto simp: passes_def startswith_prefix get_default_def)

section \<open>The claims\<close>

text \<open>
  Claim C1: for every list of documents and every selection, the texts handed to the
  ranker correspond by position to the filtered documents. The comprehension of line 86
  raises no error, yields as many texts as there are filtered documents, and its \<open>j\<close>-th
  text is the searchable text of the \<open>j\<close>-th filtered document.
\<close>

theorem corpus_filtered_positional:
  "\<exists>texts. corpus_filtered (corpus documents) documents (filtered_documents y s c documents) = Inr texts \<and>
     length texts = length (filtered_documents y s c documents) \<and>
     (\<forall>j<length texts. texts ! j = searchable_text (filtered_documents y s c documents ! j))"
  by (simp add: corpus_filtered_eq)

theorem corpus_filtered_positional_witness:
  "\<exists>texts. corpus_filtered (corpus [example_doc1, example_doc2]) [example_doc1, example_doc2] [example_doc2] = Inr texts \<and>
     length texts = 1 \<and> texts ! 0 = ''Classical Mechanics Newtonian dynamics physics''"
proof -
  let ?docs = "[example_doc1, example_doc2]"
  have F: "filtered_documents ''2019'' ''All'' ''All'' ?docs = [example_doc2]"
    by (simp add: filtered_documents_def passes_def startswith_def get_default_def
          example_doc1_def example_doc2_def)
  obtain texts where t: "corpus_filtered (corpus ?docs) ?docs [example_doc2] = Inr texts"
      "length texts = length [example_doc2]"
      "\<forall>j<length texts. texts ! j = searchable_text ([example_doc2] ! j)"
    using corpus_filtered_positional [of ?docs "''2019''" "''All''" "''All''"] unfolding F by blast
  have "texts ! 0 = ''Classical Mechanics Newtonian dynamics physics''"
    using t(2,3) by (simp add: searchable_text_def get_default_def example_doc2_def)
  then show ?thesis using t(1,2) by simp
qed

text \<open>
  Claim C2: the filter keeps exactly the documents for which (the year is "All" or the
  update date starts with the selected year) and (the submitter is "All" or the document
  has exactly that submitter) and (the category is "All" or the document has a list of
  categories containing it). For every selection whatever, an absent update date is read
  as the empty text, an absent submitter meets no concrete submitter, and absent or empty
  categories meet no concrete category. For every year that the sidebar offers (line 69:
  "All" or one of \<open>update_dates\<close>), a document is kept only if it is "All" or the
  document has an update date that starts with it, so an absent update date meets no
  concrete year.
\<close>

theorem filter_retains_iff:
  "filtered_documents y s c documents =
     [doc \<leftarrow> documents.
        (y = ''All'' \<or> prefix y (case update_date doc of None \<Rightarrow> [] | Some u \<Rightarrow> u)) \<and>
        (s = ''All'' \<or> submitter doc = Some s) \<and>
        (c = ''All'' \<or> (\<exists>cs. categories doc = Some cs \<and> c \<in> set cs))] \<and>
   (y \<in> set (''All'' # update_dates documents) \<longrightarrow>
      filtered_documents y s c documents =
        [doc \<leftarrow> documents.
           (y = ''All'' \<or> (\<exists>u. update_date doc = Some u \<and> prefix y u)) \<and>
           (s = ''All'' \<or> submitter doc = Some s) \<and>
           (c = ''All'' \<or> (\<exists>cs. categories doc = Some cs \<and> c \<in> set cs))]) \<and>
   (y \<in> set (update_dates documents) \<and> y \<noteq> ''All'' \<longrightarrow>
      (\<forall>doc. update_date doc = None \<longrightarrow> doc \<notin> set (filtered_documents y s c documents))) \<and>
   (s \<noteq> ''All'' \<longrightarrow>
      (\<forall>doc. submitter doc = None \<longrightarrow> doc \<notin> set (filtered_documents y s c documents))) \<and>
   (c \<noteq> ''All'' \<longrightarrow>
      (\<forall>doc. categories doc = None \<or> categories doc = Some [] \<longrightarrow>
             doc \<notin> set (filtered_documents y s c documents)))"
proof -
  have whole: "filtered_documents y s c documents =
     [doc \<leftarrow> documents.
        (y = ''All'' \<or> prefix y (case update_date doc of None \<Rightarrow> [] | Some u \<Rightarrow> u)) \<and>
        (s = ''All'' \<or> submitter doc = Some s) \<and>
        (c = ''All'' \<or> (\<exists>cs. categories doc = Some cs \<and> c \<in> set cs))]"
    by (simp add: filtered_documents_def passes_iff)
  have year: "prefix y (case update_date doc of None \<Rightarrow> [] | Some u \<Rightarrow> u) \<longleftrightarrow>
                (\<exists>u. update_date doc = Some u \<and> prefix y u)" if "y \<noteq> []" for doc :: document
    using that by (cases "update_date doc") simp_all
  have offered: "filtered_documents y s c documents =
        [doc \<leftarrow> documents.
           (y = ''All'' \<or> (\<exists>u. update_date doc = Some u \<and> prefix y u)) \<and>
           (s = ''All'' \<or> submitter doc = Some s) \<and>
           (c = ''All'' \<or> (\<exists>cs. categories doc = Some cs \<and> c \<in> set cs))]"
    if "y \<in> set (''All'' # update_dates documents)"
  proof (cases "y = ''All''")
    case True
    show ?thesis by (subst whole) (simp add: True)
  next
    case False
    then have "y \<noteq> []" using that update_dates_nonempty by auto
    then show ?thesis by (subst whole) (simp add: year)
  qed
  have absent_year: "doc \<notin> set (filtered_documents y s c documents)"
    if "y \<in> set (update_dates documents)" "y \<noteq> ''All''" "update_date doc = None" for doc
    using that update_dates_nonempty [OF that(1)] by (simp add: filtered_documents_def passes_iff)
  have absent_submitter: "doc \<notin> set (filtered_documents y s c documents)"
    if "s \<noteq> ''All''" "submitter doc = None" for doc
    using that by (simp add: filtered_documents_def passes_iff)
  have absent_categories: "doc \<notin> set (filtered_documents y s c documents)"
    if "c \<noteq> ''All''" "categories doc = None \<or> categories doc = Some []" for doc
    using that by (auto simp: filtered_documents_def passes_iff)
  show ?thesis
    using whole offered absent_year absent_submitter absent_categories by blast
qed

theorem filter_retains_iff_witness:
  "''2019'' \<in> set (''All'' # update_dates [example_doc1, example_doc2, bare_doc]) \<and>
   ''2019'' \<in> set (update_dates [example_doc1, example_doc2, bare_doc]) \<and> ''2019'' \<noteq> ''All'' \<and>
   ''bob'' \<noteq> ''All'' \<and> ''physics'' \<noteq> ''All'' \<and>
   filtered_documents ''2019'' ''bob'' ''physics'' [example_doc1, example_doc2, bare_doc] = [example_doc2] \<and>
   bare_doc \<notin> set (filtered_documents ''2019'' ''bob'' ''physics'' [example_doc1, example_doc2, bare_doc])"
proof -
  have h: "''2019'' \<in> set (update_dates [example_doc1, example_doc2, bare_doc])"
    by (simp add: update_dates_def sorted_set_def truthy_def get_default_def
          example_doc1_def example_doc2_def bare_doc_def)
  have n: "update_date bare_doc = None"
    by (simp add: bare_doc_def)
  show ?thesis
    using h n filter_retains_iff
      [of "''2019''" "''bob''" "''physics''" "[example_doc1, example_doc2, bare_doc]"]
    by (simp add: example_doc1_def example_doc2_def bare_doc_def)
qed

text \<open>
  Claim C3: for candidate texts aligned with candidate documents, the ranker returns,
  without error, the documents of \<open>min limit (length corp)\<close> results; every result is a
  candidate with its own score; scores descend along the list, and results of equal score
  keep the order of the candidates. Ranking no candidates returns the empty list.
\<close>

theorem rank_top_limit:
  fixes scorer :: "string \<Rightarrow> string \<Rightarrow> 's::linorder"
  assumes "length corp = length documents"
    and "rs = process_extract scorer query corp limit"
  shows "recommend_documents scorer query corp documents limit = Inr (map (\<lambda>r. documents ! idx r) rs) \<and>
         length rs = min limit (length corp) \<and>
         (\<forall>r \<in> set rs. idx r < length corp \<and> choice r = corp ! idx r \<and> score r = scorer query (corp ! idx r)) \<and>
         (\<forall>j<length rs. \<forall>i<j. score (rs ! j) \<le> score (rs ! i) \<and>
              (score (rs ! i) = score (rs ! j) \<longrightarrow> idx (rs ! i) < idx (rs ! j))) \<and>
         recommend_documents scorer query [] [] limit = Inr []"
proof -
  have a: "recommend_documents scorer query corp documents limit = Inr (map (\<lambda>r. documents ! idx r) rs)"
    unfolding assms(2) using assms(1) by (rule recommend_documents_eq)
  have b: "length rs = min limit (length corp)"
    unfolding assms(2) by (rule length_process_extract)
  have c: "\<forall>r \<in> set rs. idx r < length corp \<and> choice r = corp ! idx r \<and> score r = scorer query (corp ! idx r)"
    unfolding assms(2) using set_process_extract by blast
  have srt: "sorted_wrt ranks_before rs"
    unfolding assms(2) by (rule sorted_process_extract)
  have d: "\<forall>j<length rs. \<forall>i<j. score (rs ! j) \<le> score (rs ! i) \<and>
              (score (rs ! i) = score (rs ! j) \<longrightarrow> idx (rs ! i) < idx (rs ! j))"
    using ranked_nth [OF srt] by blast
  have e: "recommend_documents scorer query [] [] limit = Inr []"
    by (simp add: recommend_documents_def process_extract_def scored_def)
  show ?thesis using a b c d e by blast
qed

theorem rank_top_limit_witness:
  "length [''x'', ''ab'', ''a'', ''abc''] = length [example_doc1, example_doc2, bare_doc, example_doc1] \<and>
   process_extract common_prefix_length ''ab'' [''x'', ''ab'', ''a'', ''abc''] 3 = [(''ab'', 2, 1), (''abc'', 2, 3), (''a'', 1, 2)] \<and>
   recommend_documents common_prefix_length ''ab'' [''x'', ''ab'', ''a'', ''abc'']
       [example_doc1, example_doc2, bare_doc, example_doc1] 3 = Inr [example_doc2, example_doc1, bare_doc]"
proof -
  have h1: "length [''x'', ''ab'', ''a'', ''abc''] = length [example_doc1, example_doc2, bare_doc, example_doc1]"
    by simp
  have h2: "[(''ab'', 2, 1), (''abc'', 2, 3), (''a'', 1, 2)] = process_extract common_prefix_length ''ab'' [''x'', ''ab'', ''a'', ''abc''] 3"
    by (simp add: process_extract_def scored_def score_def enumerate_eq_zip)
  show ?thesis
    using h1 h2 [symmetric] rank_top_limit [OF h1 h2] by (simp add: idx_def)
qed

text \<open>
  Claim C5: with all three selections at "All" the filter returns the list of documents
  unchanged, and for every selection its output is a subsequence of the input.
\<close>

theorem filter_all_identity_subseq:
  "filtered_documents ''All'' ''All'' ''All'' documents = documents \<and>
   subseq (filtered_documents y s c documents) documents"
  by (simp add: filtered_documents_def passes_def)

theorem filter_all_identity_subseq_witness:
  "filtered_documents ''All'' ''All'' ''All'' [example_doc1, bare_doc] = [example_doc1, bare_doc] \<and>
   subseq (filtered_documents ''All'' ''bob'' ''All'' [example_doc1, example_doc2]) [example_doc1, example_doc2]"
  using filter_all_identity_subseq
      [where documents = "[example_doc1, example_doc2]" and y = "''All''" and s = "''bob''" and c = "''All''"]
    filter_all_identity_subseq [where documents = "[example_doc1, bare_doc]"]
  by simp

text \<open>
  Whenever the vectorizer can be fitted, a run with the empty query ranks nothing and
  shows no document, whatever the documents, the selections and the scorer are.
\<close>

lemma empty_query_after_fit:
  "fit_transform analyzer (corpus documents) = Inr v \<Longrightarrow>
   search analyzer scorer documents y s c [] limit = Inr []"
  by (simp add: search_def)

text \<open>
  Claim C6 says that a search with the empty query returns an empty result, not an error,
  regardless of the corpus. On the empty list of documents the run ends in \<^verbatim>\<open>ValueError\<close>
  at line 42, before the query is looked at, whatever the analyzer, the scorer and the
  selections are.
\<close>

theorem empty_query_empty_corpus_raises:
  "search analyzer scorer [] y s c [] limit = Inl ValueError \<and>
   home_results analyzer scorer [] y s c [] = Inl ValueError"
  by (simp add: search_def home_results_def fit_transform_def corpus_def)

theorem empty_query_empty_corpus_raises_witness:
  "home_results (\<lambda>text. [text]) common_prefix_length [] ''All'' ''All'' ''All'' [] = Inl ValueError"
  using empty_query_empty_corpus_raises
    [of "\<lambda>text. [text]" common_prefix_length "''All''" "''All''" "''All''" 50]
  by simp

text \<open>
  Claim C7: the corpus has one text per document, at the same position, and the text of
  a document is its title, a space, its abstract, a space and its categories joined by
  spaces, where an absent title, abstract or list of categories counts as empty.
\<close>

theorem searchable_texts_positional:
  "length (corpus documents) = length documents \<and>
   (\<forall>i<length documents. corpus documents ! i =
      (case title (documents ! i) of None \<Rightarrow> [] | Some t \<Rightarrow> t) @ '' '' @
      (case abstract (documents ! i) of None \<Rightarrow> [] | Some a \<Rightarrow> a) @ '' '' @
      (case categories (documents ! i) of
         None \<Rightarrow> []
       | Some [] \<Rightarrow> []
       | Some (cat # cats) \<Rightarrow> cat @ concat (map (\<lambda>x. '' '' @ x) cats)))"
  by (simp add: corpus_eq_map searchable_text_def get_default_def join_concat append_single
        split: option.split list.split)

theorem searchable_texts_positional_witness:
  "corpus [example_doc3, example_doc1, bare_doc] ! 0 = ''Learning to Rank pairwise losses cs.IR cs.LG stat.ML'' \<and>
   corpus [example_doc3, example_doc1, bare_doc] ! 1 = ''Quantum Computing Basics intro to qubits quant-ph'' \<and>
   corpus [example_doc3, example_doc1, bare_doc] ! 2 = ''  '' \<and>
   length (corpus [example_doc3, example_doc1, bare_doc]) = 3"
proof -
  let ?docs = "[example_doc3, example_doc1, bare_doc]"
  note texts = searchable_texts_positional [of ?docs]
  have t0: "corpus ?docs ! 0 = ''Learning to Rank pairwise losses cs.IR cs.LG stat.ML''"
    using texts [THEN conjunct2, rule_format, of 0] by (simp add: example_doc3_def)
  have t1: "corpus ?docs ! 1 = ''Quantum Computing Basics intro to qubits quant-ph''"
    using texts [THEN conjunct2, rule_format, of 1] by (simp add: example_doc1_def)
  have t2: "corpus ?docs ! 2 = ''  ''"
    using texts [THEN conjunct2, rule_format, of 2] by (simp add: bare_doc_def)
  have len: "length (corpus ?docs) = 3"
    using texts [THEN conjunct1] by simp
  show ?thesis using t0 t1 t2 len by simp
qed

text \<open>
  Claim C8: the distinct values offered by the sidebar are the submitters that are
  present and not empty, the categories of all documents, and the first four characters
  of the update dates that are present and not empty; each list is in ascending order and
  has no duplicates.
\<close>

theorem distinct_value_sets:
  "set (submitters documents) = {s. s \<noteq> [] \<and> (\<exists>doc \<in> set documents. submitter doc = Some s)} \<and>
   set (all_categories documents) = {cat. \<exists>doc \<in> set documents. \<exists>cs. categories doc = Some cs \<and> cat \<in> set cs} \<and>
   set (update_dates documents) = {take 4 u |u. u \<noteq> [] \<and> (\<exists>doc \<in> set documents. update_date doc = Some u)} \<and>
   sorted (submitters documents) \<and> distinct (submitters documents) \<and>
   sorted (all_categories documents) \<and> distinct (all_categories documents) \<and>
   sorted (update_dates documents) \<and> distinct (update_dates documents)"
proof -
  have 1: "set (submitters documents) = {s. s \<noteq> [] \<and> (\<exists>doc \<in> set documents. submitter doc = Some s)}"
    by (auto simp: submitters_def sorted_set_def truthy_def get_default_def split: option.splits)
  have 2: "set (all_categories documents) = {cat. \<exists>doc \<in> set documents. \<exists>cs. categories doc = Some cs \<and> cat \<in> set cs}"
    by (auto simp: all_categories_def sorted_set_def get_default_def split: option.splits)
       (metis option.simps(5))+
  have 3: "set (update_dates documents) = {take 4 u |u. u \<noteq> [] \<and> (\<exists>doc \<in> set documents. update_date doc = Some u)}"
    by (force simp: update_dates_def sorted_set_def truthy_def get_default_def split: option.splits)
  have 4: "sorted (sorted_set xs) \<and> distinct (sorted_set xs)" for xs
    by (simp add: sorted_set_def)
  show ?thesis
    using 1 2 3 4 by (simp add: submitters_def all_categories_def update_dates_def)
qed

theorem distinct_value_sets_witness:
  "submitters [example_doc2, example_doc1, bare_doc, example_doc1] = [''alice'', ''bob''] \<and>
   all_categories [example_doc2, example_doc1, bare_doc, example_doc1] = [''physics'', ''quant-ph''] \<and>
   update_dates [example_doc2, example_doc1, bare_doc, example_doc1] = [''2019'', ''2020'']"
  using distinct_value_sets [of "[example_doc2, example_doc1, bare_doc, example_doc1]"]
  by (simp add: submitters_def all_categories_def update_dates_def sorted_set_def
        example_doc1_def example_doc2_def bare_doc_def truthy_def get_default_def)

text \<open>
  Claim C9: saving a document appends it to the saved courses whatever they hold, so
  saving the same document twice in a new session leaves that document twice, a list of
  length 2.
\<close>

theorem append_selection_twice:
  "selected_courses (save_course st doc) = selected_courses st @ [doc] \<and>
   selected_courses (save_course (save_course init_session doc) doc) = [doc, doc] \<and>
   length (selected_courses (save_course (save_course init_session doc) doc)) = 2"
  by (simp add: save_course_def init_session_def)

theorem append_selection_twice_witness:
  "selected_courses (save_course (save_course init_session example_doc1) example_doc1) =
     [example_doc1, example_doc1]"
  using append_selection_twice [of init_session example_doc1] by simp

end
